theory Spec2Isabelle
  imports Complex_Main
begin

section \<open>Numbers of the solver\<close>

text \<open>
  \<^verbatim>\<open>gausspf\<close> computes with numpy's complex128 and float64 values. They are modelled as
  exact complex and real numbers together with one more value, \<open>None\<close>, that stands for
  a value with an inf or nan component. Rounding, overflow and underflow are not
  modelled. A division by zero does not raise in numpy: it stores inf or nan, here
  \<open>None\<close>; every operation hands \<open>None\<close> on, and a comparison with \<open>None\<close> is false, as
  a comparison with nan is.
\<close>

type_synonym cnum = "complex option"
type_synonym rnum = "real option"

definition c_add :: "cnum \<Rightarrow> cnum \<Rightarrow> cnum" where
  "c_add a b = (case (a, b) of (Some x, Some y) \<Rightarrow> Some (x + y) | _ \<Rightarrow> None)"

definition c_sub :: "cnum \<Rightarrow> cnum \<Rightarrow> cnum" where
  "c_sub a b = (case (a, b) of (Some x, Some y) \<Rightarrow> Some (x - y) | _ \<Rightarrow> None)"

definition c_mul :: "cnum \<Rightarrow> cnum \<Rightarrow> cnum" where
  "c_mul a b = (case (a, b) of (Some x, Some y) \<Rightarrow> Some (x * y) | _ \<Rightarrow> None)"

definition c_div :: "cnum \<Rightarrow> cnum \<Rightarrow> cnum" where
  "c_div a b = (case (a, b) of
       (Some x, Some y) \<Rightarrow> (if y = 0 then None else Some (x / y))
     | _ \<Rightarrow> None)"

definition c_conj :: "cnum \<Rightarrow> cnum" where
  "c_conj a = map_option cnj a"

definition c_real :: "cnum \<Rightarrow> rnum" where
  "c_real a = map_option Re a"

definition c_imag :: "cnum \<Rightarrow> rnum" where
  "c_imag a = map_option Im a"

definition c_abs :: "cnum \<Rightarrow> rnum" where
  "c_abs a = map_option cmod a"

definition c_of_real :: "rnum \<Rightarrow> cnum" where
  "c_of_real a = map_option complex_of_real a"

definition r_abs :: "rnum \<Rightarrow> rnum" where
  "r_abs a = map_option abs a"

definition r_max :: "rnum \<Rightarrow> rnum \<Rightarrow> rnum" where
  "r_max a b = (case (a, b) of (Some x, Some y) \<Rightarrow> Some (max x y) | _ \<Rightarrow> None)"

definition r_lt :: "rnum \<Rightarrow> real \<Rightarrow> bool" where
  "r_lt a t = (case a of Some x \<Rightarrow> x < t | None \<Rightarrow> False)"

section \<open>Vectors, the admittance matrix and the mismatch\<close>

datatype py_error = ValueError | IndexError

text \<open>\<^verbatim>\<open>Ybus[k, :] * V\<close>: the product of row \<open>k\<close> with the voltage vector.\<close>

fun c_sum :: "cnum list \<Rightarrow> cnum" where
  "c_sum [] = Some 0"
| "c_sum (x # xs) = c_add x (c_sum xs)"

definition row_dot :: "cnum list \<Rightarrow> cnum list \<Rightarrow> cnum" where
  "row_dot row V = c_sum (map (\<lambda>(y, v). c_mul y v) (zip row V))"

text \<open>
  \<^verbatim>\<open>Ybus * V\<close>: the matrix is held as the list of its rows, every entry present (a
  sparse matrix leaves zeros out and skips them in a product).
\<close>

definition matvec :: "cnum list list \<Rightarrow> cnum list \<Rightarrow> cnum list" where
  "matvec Ybus V = map (\<lambda>row. row_dot row V) Ybus"

text \<open>
  The shapes \<^verbatim>\<open>V * conj(Ybus * V) - Sbus\<close> needs: an N x N matrix and two vectors of
  length N. Otherwise the product or the elementwise operations raise ValueError
  (numpy's broadcasting of a vector of length one is not modelled).
\<close>

definition shapes_ok :: "cnum list list \<Rightarrow> cnum list \<Rightarrow> cnum list \<Rightarrow> bool" where
  "shapes_ok Ybus Sbus V \<longleftrightarrow>
     length Ybus = length V \<and> list_all (\<lambda>row. length row = length V) Ybus \<and>
     length Sbus = length V"

text \<open>\<^verbatim>\<open>mis = V * conj(Ybus * V) - Sbus\<close>\<close>

definition mismatch :: "cnum list list \<Rightarrow> cnum list \<Rightarrow> cnum list \<Rightarrow> cnum list" where
  "mismatch Ybus Sbus V =
     map (\<lambda>(v, yv, s). c_sub (c_mul v (c_conj yv)) s) (zip V (zip (matvec Ybus V) Sbus))"

text \<open>
  \<^verbatim>\<open>mis[pq]\<close>: indexing with an array of bus numbers. Bus numbers are natural numbers
  here; numpy's negative indices, which count from the end, are left out.
\<close>

definition take_at :: "'a list \<Rightarrow> nat list \<Rightarrow> 'a list" where
  "take_at xs ks = map (\<lambda>k. xs ! k) ks"

text \<open>
  The vector before the loop, \<^verbatim>\<open>F = r_[mis[pvpq].real, mis[pq].imag]\<close> with
  \<^verbatim>\<open>pvpq = r_[pv, pq]\<close>, and the one in the loop,
  \<^verbatim>\<open>F = r_[mis[pv].real, mis[pq].real, mis[pq].imag]\<close>.
\<close>

definition F_init :: "cnum list \<Rightarrow> nat list \<Rightarrow> nat list \<Rightarrow> rnum list" where
  "F_init mis pv pq =
     (let pvpq = pv @ pq in map c_real (take_at mis pvpq) @ map c_imag (take_at mis pq))"

definition F_loop :: "cnum list \<Rightarrow> nat list \<Rightarrow> nat list \<Rightarrow> rnum list" where
  "F_loop mis pv pq =
     map c_real (take_at mis pv) @ map c_real (take_at mis pq) @ map c_imag (take_at mis pq)"

text \<open>
  The vector of the first check as the specification words it, to be compared with
  \<open>F_init\<close>: the real part at the swing (reference) and PQ buses, then the imaginary
  part at the PQ buses.
\<close>

definition F_init_swing :: "cnum list \<Rightarrow> nat list \<Rightarrow> nat list \<Rightarrow> rnum list" where
  "F_init_swing mis ref pq =
     map c_real (take_at mis (ref @ pq)) @ map c_imag (take_at mis pq)"

text \<open>
  \<^verbatim>\<open>linalg.norm(F, Inf)\<close> is \<^verbatim>\<open>abs(F).max()\<close>, which raises ValueError on the empty
  vector and gives nan as soon as one entry is nan.
\<close>

definition norm_inf :: "rnum list \<Rightarrow> py_error + rnum" where
  "norm_inf F = (case map r_abs F of [] \<Rightarrow> Inl ValueError | x # xs \<Rightarrow> Inr (fold r_max xs x))"

section \<open>The arrays and one sweep\<close>

text \<open>
  The arrays the call can reach: the caller's \<^verbatim>\<open>V0\<close> and \<^verbatim>\<open>Sbus\<close>, and the local
  \<^verbatim>\<open>V = V0.copy()\<close>. The code writes \<^verbatim>\<open>V[k]\<close>, \<^verbatim>\<open>V[pv]\<close> and \<^verbatim>\<open>Sbus[k]\<close>.
\<close>

record arrays =
  V0_arr :: "cnum list"
  Sbus_arr :: "cnum list"
  V_arr :: "cnum list"

text \<open>\<^verbatim>\<open>(conj(Sbus[k] / V[k]) - Ybus[k, :] * V) / Ybus[k, k]\<close>, lines 93 and 101.\<close>

definition gs_correction :: "cnum list list \<Rightarrow> cnum list \<Rightarrow> cnum list \<Rightarrow> nat \<Rightarrow> cnum" where
  "gs_correction Ybus Sbus V k =
     c_div (c_sub (c_conj (c_div (Sbus ! k) (V ! k))) (row_dot (Ybus ! k) V)) (Ybus ! k ! k)"

text \<open>The body of \<^verbatim>\<open>for k in pq[range(npq)]\<close>.\<close>

definition pq_step :: "cnum list list \<Rightarrow> nat \<Rightarrow> arrays \<Rightarrow> arrays" where
  "pq_step Ybus k st =
     (let tmp = gs_correction Ybus (Sbus_arr st) (V_arr st) k
      in st\<lparr>V_arr := (V_arr st)[k := c_add (V_arr st ! k) tmp]\<rparr>)"

fun pq_loop :: "cnum list list \<Rightarrow> nat list \<Rightarrow> arrays \<Rightarrow> arrays" where
  "pq_loop Ybus [] st = st"
| "pq_loop Ybus (k # ks) st = pq_loop Ybus ks (pq_step Ybus k st)"

text \<open>The body of \<^verbatim>\<open>for k in pv[range(npv)]\<close>.\<close>

definition pv_step :: "cnum list list \<Rightarrow> nat \<Rightarrow> arrays \<Rightarrow> arrays" where
  "pv_step Ybus k st =
     (let tmp = c_imag (c_mul (V_arr st ! k) (c_conj (row_dot (Ybus ! k) (V_arr st))));
          Sbus' = (Sbus_arr st)
                    [k := c_add (c_of_real (c_real (Sbus_arr st ! k)))
                                (c_mul (Some \<i>) (c_of_real tmp))];
          tmp' = gs_correction Ybus Sbus' (V_arr st) k
      in st\<lparr>Sbus_arr := Sbus', V_arr := (V_arr st)[k := c_add (V_arr st ! k) tmp']\<rparr>)"

fun pv_loop :: "cnum list list \<Rightarrow> nat list \<Rightarrow> arrays \<Rightarrow> arrays" where
  "pv_loop Ybus [] st = st"
| "pv_loop Ybus (k # ks) st = pv_loop Ybus ks (pv_step Ybus k st)"

text \<open>
  \<^verbatim>\<open>V[pv] = Vm[pv] * V[pv] / abs(V[pv])\<close>: the right-hand side is computed from the
  vector as it is before the assignment, then stored at the indices of \<^verbatim>\<open>pv\<close>.
\<close>

definition renormalise :: "rnum list \<Rightarrow> nat list \<Rightarrow> cnum list \<Rightarrow> cnum list" where
  "renormalise Vm pv V =
     fold (\<lambda>k W. W[k := c_div (c_mul (c_of_real (Vm ! k)) (V ! k)) (c_of_real (c_abs (V ! k)))])
          pv V"

text \<open>Lines 90 to 104: the PQ buses, then, if there is a PV bus, the PV buses.\<close>

definition sweep :: "cnum list list \<Rightarrow> rnum list \<Rightarrow> nat list \<Rightarrow> nat list \<Rightarrow> arrays \<Rightarrow> arrays" where
  "sweep Ybus Vm pv pq st =
     (let st1 = pq_loop Ybus pq st
      in if length pv \<noteq> 0
         then (let st2 = pv_loop Ybus pv st1
               in st2\<lparr>V_arr := renormalise Vm pv (V_arr st2)\<rparr>)
         else st1)"

section \<open>The iteration and the solver\<close>

text \<open>
  Lines 67 to 73 and 106 to 113: the mismatch of the current arrays, the vector \<open>F\<close>
  and its norm.
\<close>

definition normF_init :: "cnum list list \<Rightarrow> nat list \<Rightarrow> nat list \<Rightarrow> arrays \<Rightarrow> py_error + rnum" where
  "normF_init Ybus pv pq st =
     norm_inf (F_init (mismatch Ybus (Sbus_arr st) (V_arr st)) pv pq)"

definition normF_loop :: "cnum list list \<Rightarrow> nat list \<Rightarrow> nat list \<Rightarrow> arrays \<Rightarrow> py_error + rnum" where
  "normF_loop Ybus pv pq st =
     norm_inf (F_loop (mismatch Ybus (Sbus_arr st) (V_arr st)) pv pq)"

text \<open>What the call writes to the standard output, line by line.\<close>

datatype out_line =
    Banner
  | TableHead
  | IterLine int rnum
  | ConvergedBang
  | ConvergedIn int
  | NotConverged int

text \<open>
  \<^verbatim>\<open>while (not converged and i < max_it)\<close>, lines 86 to 120. The state of the loop is
  the flag, the counter, the arrays and the output so far.
\<close>

function while_loop ::
  "cnum list list \<Rightarrow> rnum list \<Rightarrow> nat list \<Rightarrow> nat list \<Rightarrow> real \<Rightarrow> int \<Rightarrow> int \<Rightarrow>
   bool \<Rightarrow> int \<Rightarrow> arrays \<Rightarrow> out_line list \<Rightarrow> py_error + (bool \<times> int \<times> arrays \<times> out_line list)"
where
  "while_loop Ybus Vm pv pq tol max_it verbose converged i st out =
     (if \<not> converged \<and> i < max_it then
        (case normF_loop Ybus pv pq (sweep Ybus Vm pv pq st) of
           Inl e \<Rightarrow> Inl e
         | Inr normF \<Rightarrow>
             while_loop Ybus Vm pv pq tol max_it verbose
               (if r_lt normF tol then True else converged)
               (i + 1)
               (sweep Ybus Vm pv pq st)
               (out @ (if verbose > 1 then [IterLine (i + 1) normF] else [])
                    @ (if r_lt normF tol \<and> verbose \<noteq> 0 then [ConvergedIn (i + 1)] else [])))
      else Inr (converged, i, st, out))"
  by pat_completeness auto
termination
  by (relation "measure (\<lambda>(Ybus, Vm, pv, pq, tol, max_it, verbose, converged, i, st, out).
                            nat (max_it - i))") auto

text \<open>
  What a call leaves behind: the returned triple \<^verbatim>\<open>V, converged, i\<close>, the caller's two
  arrays as they are after the call, and the output.
\<close>

record pf_run =
  ret_V :: "cnum list"
  ret_converged :: bool
  ret_i :: int
  Sbus_after :: "cnum list"
  V0_after :: "cnum list"
  stdout :: "out_line list"

text \<open>
  \<^verbatim>\<open>gausspf(Ybus, Sbus, V0, ref, pv, pq, ppopt)\<close>, with the three options read from
  \<^verbatim>\<open>ppopt\<close> (\<^verbatim>\<open>PF_TOL\<close>, \<^verbatim>\<open>PF_MAX_IT_GS\<close>, \<^verbatim>\<open>VERBOSE\<close>) as parameters. The first
  mismatch raises ValueError on wrong shapes, \<^verbatim>\<open>mis[pvpq]\<close> raises IndexError on a bus
  number out of range, and the norm raises ValueError when there is neither a PV nor a
  PQ bus. \<^verbatim>\<open>ref\<close> is never read.
\<close>

definition gausspf ::
  "cnum list list \<Rightarrow> cnum list \<Rightarrow> cnum list \<Rightarrow> nat list \<Rightarrow> nat list \<Rightarrow> nat list \<Rightarrow>
   real \<Rightarrow> int \<Rightarrow> int \<Rightarrow> py_error + pf_run"
where
  "gausspf Ybus Sbus V0 ref pv pq tol max_it verbose =
     (let st = \<lparr>V0_arr = V0, Sbus_arr = Sbus, V_arr = V0\<rparr>;
          Vm = map c_abs (V_arr st)
      in if \<not> shapes_ok Ybus Sbus (V_arr st) then Inl ValueError
         else if \<not> list_all (\<lambda>k. k < length (V_arr st)) (pv @ pq) then Inl IndexError
         else
           (case normF_init Ybus pv pq st of
              Inl e \<Rightarrow> Inl e
            | Inr normF \<Rightarrow>
                (let out = (if verbose > 0 then [Banner] else [])
                         @ (if verbose > 1 then [TableHead, IterLine 0 normF] else [])
                         @ (if r_lt normF tol \<and> verbose > 1 then [ConvergedBang] else [])
                 in case while_loop Ybus Vm pv pq tol max_it verbose (r_lt normF tol) 0 st out of
                      Inl e \<Rightarrow> Inl e
                    | Inr (converged, i, st', out') \<Rightarrow>
                        Inr \<lparr>ret_V = V_arr st', ret_converged = converged, ret_i = i,
                             Sbus_after = Sbus_arr st', V0_after = V0_arr st',
                             stdout = out' @ (if verbose \<noteq> 0 \<and> \<not> converged
                                              then [NotConverged i] else [])\<rparr>)))"

text \<open>The returned triple.\<close>

definition returned :: "pf_run \<Rightarrow> cnum list \<times> bool \<times> int" where
  "returned r = (ret_V r, ret_converged r, ret_i r)"

section \<open>Arithmetic of the solver's numbers\<close>

lemma c_add_simps [simp]:
  "c_add (Some x) (Some y) = Some (x + y)" "c_add None b = None" "c_add a None = None"
  by (simp_all add: c_add_def split: option.splits)

lemma c_sub_simps [simp]:
  "c_sub (Some x) (Some y) = Some (x - y)" "c_sub None b = None" "c_sub a None = None"
  by (simp_all add: c_sub_def split: option.splits)

lemma c_mul_simps [simp]:
  "c_mul (Some x) (Some y) = Some (x * y)" "c_mul None b = None" "c_mul a None = None"
  by (simp_all add: c_mul_def split: option.splits)

lemma c_div_simps [simp]:
  "c_div (Some x) (Some y) = (if y = 0 then None else Some (x / y))"
  "c_div None b = None" "c_div a None = None"
  by (simp_all add: c_div_def split: option.splits)

lemma r_max_simps [simp]:
  "r_max (Some x) (Some y) = Some (max x y)" "r_max None b = None" "r_max a None = None"
  by (simp_all add: r_max_def split: option.splits)

lemma r_lt_simps [simp]: "r_lt (Some x) t = (x < t)" "r_lt None t = False"
  by (simp_all add: r_lt_def)

lemmas num_defs = c_conj_def c_real_def c_imag_def c_abs_def c_of_real_def r_abs_def

lemmas vec_defs = row_dot_def matvec_def mismatch_def take_at_def F_init_def F_loop_def
  norm_inf_def shapes_ok_def normF_init_def normF_loop_def

lemmas step_defs = gs_correction_def pq_step_def pv_step_def renormalise_def sweep_def

declare while_loop.simps [simp del]

section \<open>What the steps of a sweep leave alone\<close>

lemma pq_step_frame [simp]:
  "V0_arr (pq_step Ybus k st) = V0_arr st"
  "Sbus_arr (pq_step Ybus k st) = Sbus_arr st"
  "length (V_arr (pq_step Ybus k st)) = length (V_arr st)"
  by (simp_all add: pq_step_def Let_def)

lemma pq_step_other: "j \<noteq> k \<Longrightarrow> V_arr (pq_step Ybus k st) ! j = V_arr st ! j"
  by (simp add: pq_step_def Let_def)

lemma pq_loop_frame [simp]:
  "V0_arr (pq_loop Ybus ks st) = V0_arr st"
  "Sbus_arr (pq_loop Ybus ks st) = Sbus_arr st"
  "length (V_arr (pq_loop Ybus ks st)) = length (V_arr st)"
  by (induction ks arbitrary: st) simp_all

lemma pq_loop_other: "j \<notin> set ks \<Longrightarrow> V_arr (pq_loop Ybus ks st) ! j = V_arr st ! j"
  by (induction ks arbitrary: st) (simp_all add: pq_step_other)


lemma pv_step_frame [simp]:
  "V0_arr (pv_step Ybus k st) = V0_arr st"
  "length (Sbus_arr (pv_step Ybus k st)) = length (Sbus_arr st)"
  "length (V_arr (pv_step Ybus k st)) = length (V_arr st)"
  by (simp_all add: pv_step_def Let_def)

lemma pv_step_other:
  "j \<noteq> k \<Longrightarrow> V_arr (pv_step Ybus k st) ! j = V_arr st ! j"
  "j \<noteq> k \<Longrightarrow> Sbus_arr (pv_step Ybus k st) ! j = Sbus_arr st ! j"
  by (simp_all add: pv_step_def Let_def)

lemma pv_loop_frame [simp]:
  "V0_arr (pv_loop Ybus ks st) = V0_arr st"
  "length (Sbus_arr (pv_loop Ybus ks st)) = length (Sbus_arr st)"
  "length (V_arr (pv_loop Ybus ks st)) = length (V_arr st)"
  by (induction ks arbitrary: st) simp_all

lemma pv_loop_other:
  "j \<notin> set ks \<Longrightarrow> V_arr (pv_loop Ybus ks st) ! j = V_arr st ! j"
  "j \<notin> set ks \<Longrightarrow> Sbus_arr (pv_loop Ybus ks st) ! j = Sbus_arr st ! j"
  by (induction ks arbitrary: st) (simp_all add: pv_step_other)


lemma fold_update_length [simp]: "length (fold (\<lambda>k W. W[k := f k]) ks W0) = length W0"
  by (induction ks arbitrary: W0) simp_all

lemma fold_update_other: "j \<notin> set ks \<Longrightarrow> fold (\<lambda>k W. W[k := f k]) ks W0 ! j = W0 ! j"
  by (induction ks arbitrary: W0) simp_all


lemma renormalise_length [simp]: "length (renormalise Vm pv V) = length V"
  by (simp add: renormalise_def)

lemma renormalise_other: "j \<notin> set pv \<Longrightarrow> renormalise Vm pv V ! j = V ! j"
  by (simp add: renormalise_def fold_update_other)


lemma sweep_frame [simp]:
  "V0_arr (sweep Ybus Vm pv pq st) = V0_arr st"
  "length (Sbus_arr (sweep Ybus Vm pv pq st)) = length (Sbus_arr st)"
  "length (V_arr (sweep Ybus Vm pv pq st)) = length (V_arr st)"
  by (simp_all add: sweep_def Let_def)

lemma sweep_V_other:
  "j \<notin> set pv \<Longrightarrow> j \<notin> set pq \<Longrightarrow> V_arr (sweep Ybus Vm pv pq st) ! j = V_arr st ! j"
  by (simp add: sweep_def Let_def renormalise_other pv_loop_other pq_loop_other)

lemma sweep_Sbus_other:
  "j \<notin> set pv \<Longrightarrow> Sbus_arr (sweep Ybus Vm pv pq st) ! j = Sbus_arr st ! j"
  by (simp add: sweep_def Let_def pv_loop_other)


section \<open>The loop\<close>

lemma while_loop_stops:
  "converged \<or> \<not> i < max_it \<Longrightarrow>
   while_loop Ybus Vm pv pq tol max_it verbose converged i st out = Inr (converged, i, st, out)"
  by (subst while_loop.simps) auto

lemma while_loop_step:
  "\<not> converged \<Longrightarrow> i < max_it \<Longrightarrow>
   while_loop Ybus Vm pv pq tol max_it verbose converged i st out =
     (case normF_loop Ybus pv pq (sweep Ybus Vm pv pq st) of
        Inl e \<Rightarrow> Inl e
      | Inr normF \<Rightarrow>
          while_loop Ybus Vm pv pq tol max_it verbose
            (if r_lt normF tol then True else converged) (i + 1)
            (sweep Ybus Vm pv pq st)
            (out @ (if verbose > 1 then [IterLine (i + 1) normF] else [])
                 @ (if r_lt normF tol \<and> verbose \<noteq> 0 then [ConvergedIn (i + 1)] else [])))"
  by (subst while_loop.simps) (simp only: simp_thms if_True)

text \<open>
  What holds of the arrays before the loop and is kept by a sweep holds of the arrays
  the loop ends with; what holds after any sweep holds at the end once a sweep has run.
\<close>

lemma while_loop_invariant:
  assumes "while_loop Ybus Vm pv pq tol max_it verbose converged i st out = Inr (c', i', st', out')"
    and "P st"
    and "\<And>s. P s \<Longrightarrow> P (sweep Ybus Vm pv pq s)"
    and "\<And>s. P s \<Longrightarrow> Q (sweep Ybus Vm pv pq s)"
  shows "P st' \<and> i \<le> i' \<and> (i' = i \<longrightarrow> st' = st \<and> c' = converged) \<and> (i < i' \<longrightarrow> Q st')"
  using assms
proof (induction Ybus Vm pv pq tol max_it verbose converged i st out rule: while_loop.induct)
  case (1 Ybus Vm pv pq tol max_it verbose converged i st out)
  show ?case
  proof (cases "\<not> converged \<and> i < max_it")
    case False
    then have "while_loop Ybus Vm pv pq tol max_it verbose converged i st out
               = Inr (converged, i, st, out)"
      by (intro while_loop_stops) auto
    with "1.prems"(1,2) show ?thesis by simp
  next
    case True
    let ?s = "sweep Ybus Vm pv pq st"
    from True have a: "\<not> converged" and b: "i < max_it" by auto
    have "\<exists>normF. normF_loop Ybus pv pq ?s = Inr normF"
    proof (cases "normF_loop Ybus pv pq ?s")
      case (Inl e)
      have "while_loop Ybus Vm pv pq tol max_it verbose converged i st out = Inl e"
        by (simp only: while_loop_step [OF a b] Inl sum.case)
      with "1.prems"(1) show ?thesis by simp
    next
      case (Inr normF)
      then show ?thesis by blast
    qed
    then obtain normF where n: "normF_loop Ybus pv pq ?s = Inr normF" ..
    let ?out = "out @ (if verbose > 1 then [IterLine (i + 1) normF] else [])
                    @ (if r_lt normF tol \<and> verbose \<noteq> 0 then [ConvergedIn (i + 1)] else [])"
    have eq: "while_loop Ybus Vm pv pq tol max_it verbose converged i st out =
      while_loop Ybus Vm pv pq tol max_it verbose (if r_lt normF tol then True else converged)
         (i + 1) ?s ?out"
      by (simp only: while_loop_step [OF a b] n sum.case)
    have run:
      "while_loop Ybus Vm pv pq tol max_it verbose (if r_lt normF tol then True else converged)
         (i + 1) ?s ?out = Inr (c', i', st', out')"
      using "1.prems"(1) unfolding eq .
    have Ps: "P ?s" and Qs: "Q ?s"
      using "1.prems"(2,3,4) by blast+
    from "1.IH" [OF True n run Ps "1.prems"(3,4)]
    have "P st' \<and> i + 1 \<le> i' \<and> (i' = i + 1 \<longrightarrow> st' = ?s \<and> c' = (if r_lt normF tol then True else converged))
          \<and> (i + 1 < i' \<longrightarrow> Q st')" .
    with Qs show ?thesis by (cases "i' = i + 1") auto
  qed
qed

text \<open>The run behind a result of the solver.\<close>

lemma gausspf_Inr:
  assumes "gausspf Ybus Sbus V0 ref pv pq tol max_it verbose = Inr r"
  obtains normF c i st' out0 out' where
    "shapes_ok Ybus Sbus V0"
    "list_all (\<lambda>k. k < length V0) (pv @ pq)"
    "normF_init Ybus pv pq \<lparr>V0_arr = V0, Sbus_arr = Sbus, V_arr = V0\<rparr> = Inr normF"
    "while_loop Ybus (map c_abs V0) pv pq tol max_it verbose (r_lt normF tol) 0
       \<lparr>V0_arr = V0, Sbus_arr = Sbus, V_arr = V0\<rparr> out0 = Inr (c, i, st', out')"
    "ret_V r = V_arr st'" "ret_converged r = c" "ret_i r = i"
    "Sbus_after r = Sbus_arr st'" "V0_after r = V0_arr st'"
  using assms
  by (auto simp: gausspf_def Let_def split: if_splits sum.splits)



lemma row_dot_matvec: "k < length Ybus \<Longrightarrow> matvec Ybus V ! k = row_dot (Ybus ! k) V"
  by (simp add: matvec_def)

lemma mismatch_nth:
  assumes "shapes_ok Ybus Sbus V" and "k < length V"
  shows "mismatch Ybus Sbus V ! k
         = c_sub (c_mul (V ! k) (c_conj (row_dot (Ybus ! k) V))) (Sbus ! k)"
  using assms by (simp add: mismatch_def shapes_ok_def matvec_def)

lemma F_init_explicit:
  assumes "shapes_ok Ybus Sbus V" and "list_all (\<lambda>k. k < length V) (pv @ pq)"
  shows "F_init (mismatch Ybus Sbus V) pv pq
         = map (\<lambda>k. c_real (c_sub (c_mul (V ! k) (c_conj (row_dot (Ybus ! k) V))) (Sbus ! k))) pv
         @ map (\<lambda>k. c_real (c_sub (c_mul (V ! k) (c_conj (row_dot (Ybus ! k) V))) (Sbus ! k))) pq
         @ map (\<lambda>k. c_imag (c_sub (c_mul (V ! k) (c_conj (row_dot (Ybus ! k) V))) (Sbus ! k))) pq"
  using assms by (simp add: F_init_def take_at_def list_all_iff mismatch_nth)

text \<open>A call whose loop does not run: the first check succeeds, or the cap is not positive.\<close>

lemma gausspf_no_sweep:
  assumes "shapes_ok Ybus Sbus V0" and "list_all (\<lambda>k. k < length V0) (pv @ pq)"
    and "norm_inf (F_init (mismatch Ybus Sbus V0) pv pq) = Inr normF"
    and "r_lt normF tol \<or> max_it \<le> 0"
  shows "gausspf Ybus Sbus V0 ref pv pq tol max_it verbose
         = Inr \<lparr>ret_V = V0, ret_converged = r_lt normF tol, ret_i = 0,
                Sbus_after = Sbus, V0_after = V0,
                stdout = (if verbose > 0 then [Banner] else [])
                       @ (if verbose > 1 then [TableHead, IterLine 0 normF] else [])
                       @ (if r_lt normF tol \<and> verbose > 1 then [ConvergedBang] else [])
                       @ (if verbose \<noteq> 0 \<and> \<not> r_lt normF tol then [NotConverged 0] else [])\<rparr>"
proof -
  have stop: "while_loop Ybus Vm pv pq tol max_it verbose (r_lt normF tol) 0 st out
              = Inr (r_lt normF tol, 0, st, out)" for Vm st out
    using assms(4) by (intro while_loop_stops) auto
  show ?thesis
    using assms(1-3) by (simp add: gausspf_def normF_init_def stop)
qed

section \<open>The cap and the flag\<close>






section \<open>Verbosity\<close>


lemma while_loop_verbose:
  "map_sum id (\<lambda>(c, i, st, out). (c, i, st))
     (while_loop Ybus Vm pv pq tol max_it verbose converged i st out)
   = map_sum id (\<lambda>(c, i, st, out). (c, i, st))
     (while_loop Ybus Vm pv pq tol max_it verbose' converged i st out')"
proof (induction Ybus Vm pv pq tol max_it verbose converged i st out arbitrary: out'
       rule: while_loop.induct)
  case (1 Ybus Vm pv pq tol max_it verbose converged i st out)
  show ?case
  proof (cases "\<not> converged \<and> i < max_it")
    case False
    then have "while_loop Ybus Vm pv pq tol max_it v converged i st out
               = Inr (converged, i, st, out)" for v out
      by (intro while_loop_stops) auto
    then show ?thesis by simp
  next
    case True
    then have a: "\<not> converged" and b: "i < max_it" by auto
    show ?thesis
    proof (cases "normF_loop Ybus pv pq (sweep Ybus Vm pv pq st)")
      case (Inl e)
      have "while_loop Ybus Vm pv pq tol max_it v converged i st out = Inl e" for v out
        by (simp only: while_loop_step [OF a b] Inl sum.case)
      then show ?thesis by simp
    next
      case (Inr normF)
      have "while_loop Ybus Vm pv pq tol max_it v converged i st out =
        while_loop Ybus Vm pv pq tol max_it v (if r_lt normF tol then True else converged)
         (i + 1) (sweep Ybus Vm pv pq st)
         (out @ (if v > 1 then [IterLine (i + 1) normF] else [])
              @ (if r_lt normF tol \<and> v \<noteq> 0 then [ConvergedIn (i + 1)] else []))" for v out
        by (simp only: while_loop_step [OF a b] Inr sum.case)
      then show ?thesis using "1.IH" [OF True Inr] by simp
    qed
  qed
qed

section \<open>The order of the updates\<close>



section \<open>The PV buses\<close>

lemma rebuilt_real_part:
  "c_add (c_of_real (c_real s)) (c_mul (Some \<i>) (c_of_real q)) = Some x
   \<longleftrightarrow> (\<exists>y b. s = Some y \<and> q = Some b \<and> x = Complex (Re y) b)"
  by (cases s; cases q) (auto simp: num_defs complex_eq_iff)

lemma pv_step_Sbus_nth:
  "k < length (Sbus_arr st) \<Longrightarrow>
   Sbus_arr (pv_step Ybus k st) ! k
     = c_add (c_of_real (c_real (Sbus_arr st ! k)))
             (c_mul (Some \<i>) (c_of_real (c_imag (c_mul (V_arr st ! k)
                (c_conj (row_dot (Ybus ! k) (V_arr st)))))))"
  by (simp add: pv_step_def Let_def)

lemma pv_step_real:
  assumes "j < length (Sbus_arr st)" and "Sbus_arr (pv_step Ybus k st) ! j = Some x"
  shows "\<exists>y. Sbus_arr st ! j = Some y \<and> Re y = Re x"
proof (cases "j = k")
  case True
  with assms show ?thesis
    by (auto simp: pv_step_Sbus_nth rebuilt_real_part)
next
  case False
  with assms show ?thesis by (simp add: pv_step_other)
qed

lemma pv_loop_real:
  "j < length (Sbus_arr st) \<Longrightarrow> Sbus_arr (pv_loop Ybus ks st) ! j = Some x \<Longrightarrow>
   \<exists>y. Sbus_arr st ! j = Some y \<and> Re y = Re x"
proof (induction ks arbitrary: st x)
  case Nil
  then show ?case by simp
next
  case (Cons k ks)
  from Cons.prems have "j < length (Sbus_arr (pv_step Ybus k st))" by simp
  from Cons.IH [OF this] Cons.prems(2)
  obtain y where y: "Sbus_arr (pv_step Ybus k st) ! j = Some y" "Re y = Re x" by auto
  from pv_step_real [OF Cons.prems(1) y(1)] y(2) show ?case by auto
qed

lemma sweep_real:
  "j < length (Sbus_arr st) \<Longrightarrow> Sbus_arr (sweep Ybus Vm pv pq st) ! j = Some x \<Longrightarrow>
   \<exists>y. Sbus_arr st ! j = Some y \<and> Re y = Re x"
  using pv_loop_real [of j "pq_loop Ybus pq st" Ybus pv x]
  by (auto simp: sweep_def Let_def split: if_splits)


lemmas all_defs = gausspf_def num_defs vec_defs step_defs Let_def

section \<open>The claims\<close>



text \<open>
  C2, as amended. The vector of the check before the first sweep holds the real part
  of \<open>V * conj(Ybus * V) - Sbus\<close> at the PV buses and at the PQ buses, then its
  imaginary part at the PQ buses; the swing bus has no entry in it. When its infinity
  norm is below the tolerance the solver returns at once: the flag is set, the count is
  0, and \<open>V\<close> and \<open>Sbus\<close> are as they were passed in, so no sweep has run. A call that
  returns the flag with count 0 has passed exactly this check.
\<close>

theorem initial_check_on_pv_and_pq:
  assumes "shapes_ok Ybus Sbus V0" and "list_all (\<lambda>k. k < length V0) (pv @ pq)"
  shows "let mis = (\<lambda>k. c_sub (c_mul (V0 ! k) (c_conj (row_dot (Ybus ! k) V0))) (Sbus ! k));
             F = map (\<lambda>k. c_real (mis k)) pv @ map (\<lambda>k. c_real (mis k)) pq
               @ map (\<lambda>k. c_imag (mis k)) pq
         in (\<forall>normF. norm_inf F = Inr normF \<and> r_lt normF tol \<longrightarrow>
              map_sum id (\<lambda>r. (ret_V r, ret_converged r, ret_i r, Sbus_after r))
                (gausspf Ybus Sbus V0 ref pv pq tol max_it verbose) = Inr (V0, True, 0, Sbus))
          \<and> (\<forall>r. gausspf Ybus Sbus V0 ref pv pq tol max_it verbose = Inr r
                 \<and> ret_converged r \<and> ret_i r = 0 \<longrightarrow>
                 (\<exists>normF. norm_inf F = Inr normF \<and> r_lt normF tol))"
proof -
  define F where "F = map (\<lambda>k. c_real (c_sub (c_mul (V0 ! k) (c_conj (row_dot (Ybus ! k) V0))) (Sbus ! k))) pv
           @ map (\<lambda>k. c_real (c_sub (c_mul (V0 ! k) (c_conj (row_dot (Ybus ! k) V0))) (Sbus ! k))) pq
           @ map (\<lambda>k. c_imag (c_sub (c_mul (V0 ! k) (c_conj (row_dot (Ybus ! k) V0))) (Sbus ! k))) pq"
  have F: "F = F_init (mismatch Ybus Sbus V0) pv pq"
    using assms by (simp add: F_def F_init_explicit)
  have A: "map_sum id (\<lambda>r. (ret_V r, ret_converged r, ret_i r, Sbus_after r))
              (gausspf Ybus Sbus V0 ref pv pq tol max_it verbose) = Inr (V0, True, 0, Sbus)"
    if "norm_inf F = Inr normF \<and> r_lt normF tol" for normF
    using that assms(1,2) F by (simp add: gausspf_no_sweep [where normF = normF])
  have B: "\<exists>normF. norm_inf F = Inr normF \<and> r_lt normF tol"
    if a: "gausspf Ybus Sbus V0 ref pv pq tol max_it verbose = Inr r
               \<and> ret_converged r \<and> ret_i r = 0" for r
  proof -
    from a have "gausspf Ybus Sbus V0 ref pv pq tol max_it verbose = Inr r" by simp
    then obtain normF c i st' out0 out' where
      n: "normF_init Ybus pv pq \<lparr>V0_arr = V0, Sbus_arr = Sbus, V_arr = V0\<rparr> = Inr normF"
      and run: "while_loop Ybus (map c_abs V0) pv pq tol max_it verbose (r_lt normF tol) 0
         \<lparr>V0_arr = V0, Sbus_arr = Sbus, V_arr = V0\<rparr> out0 = Inr (c, i, st', out')"
      and r: "ret_converged r = c" "ret_i r = i"
      by (rule gausspf_Inr)
    have "True \<and> 0 \<le> i
        \<and> (i = 0 \<longrightarrow> st' = \<lparr>V0_arr = V0, Sbus_arr = Sbus, V_arr = V0\<rparr> \<and> c = r_lt normF tol)
        \<and> (0 < i \<longrightarrow> True)"
      by (rule while_loop_invariant [OF run, where P = "\<lambda>s. True" and Q = "\<lambda>s. True"]) simp_all
    with a r have "r_lt normF tol" by simp
    with n F show ?thesis by (auto simp: normF_init_def)
  qed
  from A B show ?thesis unfolding Let_def F_def by blast
qed

theorem initial_check_on_pv_and_pq_witness:
  "shapes_ok [[Some 1, Some (- 1)], [Some (- 1), Some 1]] [Some 1, Some 0] [Some 1, Some 1]
   \<and> list_all (\<lambda>k. k < length [Some 1, Some (1::complex)]) ([] @ [1])
   \<and> norm_inf [Some 0, Some 0] = Inr (Some 0) \<and> r_lt (Some 0) (1 / 2)
   \<and> map_sum id (\<lambda>r. (ret_V r, ret_converged r, ret_i r, Sbus_after r))
        (gausspf [[Some 1, Some (- 1)], [Some (- 1), Some 1]] [Some 1, Some 0] [Some 1, Some 1]
           [0] [] [1] (1 / 2) 10 0)
      = Inr ([Some 1, Some 1], True, 0, [Some 1, Some 0])"
proof -
  have h1: "shapes_ok [[Some 1, Some (- 1)], [Some (- 1), Some 1]] [Some 1, Some 0] [Some 1, Some 1]"
    and h2: "list_all (\<lambda>k. k < length [Some 1, Some (1::complex)]) ([] @ [1])"
    by (simp_all add: vec_defs)
  have h4: "norm_inf [Some 0, Some 0] = Inr (Some 0)" and h5: "r_lt (Some 0) (1 / 2)"
    by (simp_all add: num_defs vec_defs)
  from initial_check_on_pv_and_pq [OF h1 h2, of "1 / 2" "[0]" 10 0] h4 h5
  have "map_sum id (\<lambda>r. (ret_V r, ret_converged r, ret_i r, Sbus_after r))
        (gausspf [[Some 1, Some (- 1)], [Some (- 1), Some 1]] [Some 1, Some 0] [Some 1, Some 1]
           [0] [] [1] (1 / 2) 10 0)
      = Inr ([Some 1, Some 1], True, 0, [Some 1, Some 0])"
    by (simp add: Let_def num_defs row_dot_def)
  with h1 h2 h4 h5 show ?thesis by (simp only: simp_thms)
qed

text \<open>
  C2 as the specification words it, with the real part taken at the swing bus and the
  PQ buses, fails. On a two-bus network with swing bus 0 and PV bus 1 the vector so
  assembled is \<open>[0]\<close>, of norm 0, below the tolerance; the solver nevertheless runs
  its two sweeps and returns without the flag.
\<close>

theorem initial_check_swing_counterexample:
  "norm_inf (F_init_swing (mismatch [[Some 1, Some (- 1)], [Some (- 1), Some 1]]
                                    [Some 0, Some 1] [Some 1, Some 1]) [0] []) = Inr (Some 0)
   \<and> r_lt (Some 0) (1 / 1000)
   \<and> gausspf [[Some 1, Some (- 1)], [Some (- 1), Some 1]] [Some 0, Some 1] [Some 1, Some 1]
        [0] [1] [] (1 / 1000) 2 0
      = Inr \<lparr>ret_V = [Some 1, Some 1], ret_converged = False, ret_i = 2,
             Sbus_after = [Some 0, Some 1], V0_after = [Some 1, Some 1], stdout = []\<rparr>"
  by (simp add: all_defs F_init_swing_def while_loop.simps)







text \<open>
  C5. When the reference buses are disjoint from the PV and PQ buses, the voltage the
  solver returns at a reference bus is the very entry of \<open>V0\<close>, whatever the number of
  sweeps: no assignment of the code writes to that index.
\<close>

theorem reference_bus_unchanged:
  assumes "gausspf Ybus Sbus V0 ref pv pq tol max_it verbose = Inr r"
    and "b \<in> set ref"
    and "set ref \<inter> (set pv \<union> set pq) = {}"
  shows "ret_V r ! b = V0 ! b"
proof -
  from assms(1) obtain normF c i st' out0 out' where
    run: "while_loop Ybus (map c_abs V0) pv pq tol max_it verbose (r_lt normF tol) 0
       \<lparr>V0_arr = V0, Sbus_arr = Sbus, V_arr = V0\<rparr> out0 = Inr (c, i, st', out')"
    and r: "ret_V r = V_arr st'"
    by (rule gausspf_Inr)
  from assms(2,3) have b: "b \<notin> set pv" "b \<notin> set pq" by auto
  have "V_arr st' ! b = V0 ! b \<and> 0 \<le> i \<and> (i = 0 \<longrightarrow> st' = \<lparr>V0_arr = V0, Sbus_arr = Sbus, V_arr = V0\<rparr> \<and> c = r_lt normF tol) \<and> (0 < i \<longrightarrow> True)"
    by (rule while_loop_invariant [OF run, where P = "\<lambda>s. V_arr s ! b = V0 ! b" and Q = "\<lambda>s. True"])
       (simp_all add: sweep_V_other b)
  with r show ?thesis by simp
qed

theorem reference_bus_unchanged_witness:
  "gausspf [[Some 2, Some (- 2)], [Some (- 2), Some 2]] [Some 0, Some (- 1)] [Some 1, Some 1]
      [0] [] [1] (1 / 1000) 1 0
    = Inr \<lparr>ret_V = [Some 1, Some (1 / 2)], ret_converged = False, ret_i = 1,
           Sbus_after = [Some 0, Some (- 1)], V0_after = [Some 1, Some 1], stdout = []\<rparr>
   \<and> (0::nat) \<in> set [0] \<and> set [0::nat] \<inter> (set [] \<union> set [1]) = {}
   \<and> [Some 1, Some (1 / 2 :: complex)] ! 0 = [Some 1, Some 1] ! 0"
proof -
  have run: "gausspf [[Some 2, Some (- 2)], [Some (- 2), Some 2]] [Some 0, Some (- 1)] [Some 1, Some 1]
      [0] [] [1] (1 / 1000) 1 0
    = Inr \<lparr>ret_V = [Some 1, Some (1 / 2)], ret_converged = False, ret_i = 1,
           Sbus_after = [Some 0, Some (- 1)], V0_after = [Some 1, Some 1], stdout = []\<rparr>"
    by (simp add: all_defs while_loop.simps)
  have mem: "(0::nat) \<in> set [0]" and dis: "set [0::nat] \<inter> (set [] \<union> set [1]) = {}" by simp_all
  from reference_bus_unchanged [OF run mem dis] run mem dis show ?thesis by simp
qed

text \<open>
  C6. On shapes that fit and bus numbers in range, when the norm of the first mismatch
  is below the tolerance the solver returns the flag, the count 0 and the whole of
  \<open>V0\<close> as the voltage vector. And whatever the call does, the caller's \<open>V0\<close> is the
  same after it: the code works on the copy.
\<close>

theorem early_exit_returns_V0:
  "(shapes_ok Ybus Sbus V0 \<and> list_all (\<lambda>k. k < length V0) (pv @ pq) \<and>
    norm_inf (F_init (mismatch Ybus Sbus V0) pv pq) = Inr normF \<and> r_lt normF tol
    \<longrightarrow> gausspf Ybus Sbus V0 ref pv pq tol max_it verbose
         = Inr \<lparr>ret_V = V0, ret_converged = True, ret_i = 0,
                Sbus_after = Sbus, V0_after = V0,
                stdout = (if verbose > 0 then [Banner] else [])
                       @ (if verbose > 1 then [TableHead, IterLine 0 normF, ConvergedBang] else [])\<rparr>)
   \<and> (\<forall>r. gausspf Ybus Sbus V0 ref pv pq tol max_it verbose = Inr r \<longrightarrow> V0_after r = V0)"
proof (intro conjI impI allI)
  assume a: "shapes_ok Ybus Sbus V0 \<and> list_all (\<lambda>k. k < length V0) (pv @ pq) \<and>
    norm_inf (F_init (mismatch Ybus Sbus V0) pv pq) = Inr normF \<and> r_lt normF tol"
  then show "gausspf Ybus Sbus V0 ref pv pq tol max_it verbose
         = Inr \<lparr>ret_V = V0, ret_converged = True, ret_i = 0,
                Sbus_after = Sbus, V0_after = V0,
                stdout = (if verbose > 0 then [Banner] else [])
                       @ (if verbose > 1 then [TableHead, IterLine 0 normF, ConvergedBang] else [])\<rparr>"
    by (simp add: gausspf_no_sweep [where normF = normF])
next
  fix r
  assume "gausspf Ybus Sbus V0 ref pv pq tol max_it verbose = Inr r"
  then obtain normF c i st' out0 out' where
    run: "while_loop Ybus (map c_abs V0) pv pq tol max_it verbose (r_lt normF tol) 0
       \<lparr>V0_arr = V0, Sbus_arr = Sbus, V_arr = V0\<rparr> out0 = Inr (c, i, st', out')"
    and r: "V0_after r = V0_arr st'"
    by (rule gausspf_Inr)
  have "V0_arr st' = V0 \<and> 0 \<le> i
        \<and> (i = 0 \<longrightarrow> st' = \<lparr>V0_arr = V0, Sbus_arr = Sbus, V_arr = V0\<rparr> \<and> c = r_lt normF tol)
        \<and> (0 < i \<longrightarrow> True)"
    by (rule while_loop_invariant [OF run, where P = "\<lambda>s. V0_arr s = V0" and Q = "\<lambda>s. True"])
       simp_all
  with r show "V0_after r = V0" by simp
qed

theorem early_exit_returns_V0_witness:
  "shapes_ok [[Some 1, Some (- 1)], [Some (- 1), Some 1]] [Some 1, Some 0] [Some 1, Some 1]
   \<and> list_all (\<lambda>k. k < length [Some 1, Some (1::complex)]) ([] @ [1])
   \<and> norm_inf (F_init (mismatch [[Some 1, Some (- 1)], [Some (- 1), Some 1]]
                                 [Some 1, Some 0] [Some 1, Some 1]) [] [1]) = Inr (Some 0)
   \<and> r_lt (Some 0) (1 / 2)
   \<and> gausspf [[Some 1, Some (- 1)], [Some (- 1), Some 1]] [Some 1, Some 0] [Some 1, Some 1]
        [0] [] [1] (1 / 2) 10 2
      = Inr \<lparr>ret_V = [Some 1, Some 1], ret_converged = True, ret_i = 0,
             Sbus_after = [Some 1, Some 0], V0_after = [Some 1, Some 1],
             stdout = [Banner, TableHead, IterLine 0 (Some 0), ConvergedBang]\<rparr>"
proof -
  have h: "shapes_ok [[Some 1, Some (- 1)], [Some (- 1), Some 1]] [Some 1, Some 0] [Some 1, Some 1]
   \<and> list_all (\<lambda>k. k < length [Some 1, Some (1::complex)]) ([] @ [1])
   \<and> norm_inf (F_init (mismatch [[Some 1, Some (- 1)], [Some (- 1), Some 1]]
                                 [Some 1, Some 0] [Some 1, Some 1]) [] [1]) = Inr (Some 0)
   \<and> r_lt (Some 0) (1 / 2)"
    by (simp add: num_defs vec_defs)
  from early_exit_returns_V0 [where Ybus = "[[Some 1, Some (- 1)], [Some (- 1), Some 1]]"
      and Sbus = "[Some 1, Some 0]" and ?V0.0 = "[Some 1, Some 1]" and pv = "[]" and pq = "[1]"
      and normF = "Some 0" and tol = "1 / 2" and ref = "[0]" and max_it = 10 and verbose = 2] h
  show ?thesis by simp
qed



text \<open>
  C8. Two calls that differ in the verbosity only return the same triple
  \<open>(V, converged, i)\<close>, or raise the same error.
\<close>

theorem verbosity_does_not_change_result:
  "map_sum id returned (gausspf Ybus Sbus V0 ref pv pq tol max_it verbose)
   = map_sum id returned (gausspf Ybus Sbus V0 ref pv pq tol max_it verbose')"
proof (cases "shapes_ok Ybus Sbus V0 \<and> list_all (\<lambda>k. k < length V0) (pv @ pq)")
  case False
  then show ?thesis by (auto simp: gausspf_def Let_def)
next
  case True
  let ?st = "\<lparr>V0_arr = V0, Sbus_arr = Sbus, V_arr = V0\<rparr>"
  show ?thesis
  proof (cases "normF_init Ybus pv pq ?st")
    case (Inl e)
    with True show ?thesis by (simp add: gausspf_def Let_def)
  next
    case (Inr normF)
    let ?out = "\<lambda>v. (if v > 0 then [Banner] else [])
                 @ (if v > 1 then [TableHead, IterLine 0 normF] else [])
                 @ (if r_lt normF tol \<and> v > 1 then [ConvergedBang] else [])"
    let ?w = "\<lambda>v. while_loop Ybus (map c_abs V0) pv pq tol max_it v (r_lt normF tol) 0 ?st (?out v)"
    have w: "map_sum id (\<lambda>(c, i, st, out). (c, i, st)) (?w verbose)
           = map_sum id (\<lambda>(c, i, st, out). (c, i, st)) (?w verbose')"
      by (rule while_loop_verbose)
    have g: "map_sum id returned (gausspf Ybus Sbus V0 ref pv pq tol max_it v)
           = map_sum id (\<lambda>(c, i, st). (V_arr st, c, i))
               (map_sum id (\<lambda>(c, i, st, out). (c, i, st)) (?w v))" for v
      using True Inr
      by (simp add: gausspf_def returned_def Let_def split: sum.splits)
    show ?thesis by (simp only: g w)
  qed
qed

theorem verbosity_does_not_change_result_witness:
  "map_sum id returned
     (gausspf [[Some 1, Some (- 1)], [Some (- 1), Some 1]] [Some 0, Some 1] [Some 1, Some 1]
        [0] [1] [] (1 / 1000) 2 0)
   = map_sum id returned
     (gausspf [[Some 1, Some (- 1)], [Some (- 1), Some 1]] [Some 0, Some 1] [Some 1, Some 1]
        [0] [1] [] (1 / 1000) 2 2)
   \<and> map_sum id returned
     (gausspf [[Some 1, Some (- 1)], [Some (- 1), Some 1]] [Some 0, Some 1] [Some 1, Some 1]
        [0] [1] [] (1 / 1000) 2 2) = Inr ([Some 1, Some 1], False, 2)"
proof -
  have "map_sum id returned
     (gausspf [[Some 1, Some (- 1)], [Some (- 1), Some 1]] [Some 0, Some 1] [Some 1, Some 1]
        [0] [1] [] (1 / 1000) 2 2) = Inr ([Some 1, Some 1], False, 2)"
    by (simp add: all_defs returned_def while_loop.simps)
  with verbosity_does_not_change_result [of "[[Some 1, Some (- 1)], [Some (- 1), Some 1]]"
      "[Some 0, Some 1]" "[Some 1, Some 1]" "[0]" "[1]" "[]" "1 / 1000" 2 0 2]
  show ?thesis by simp
qed

text \<open>
  C9, as amended. A call leaves \<open>Sbus\<close> as long as it was and leaves every entry
  outside \<open>pv\<close> as it was; an entry at a PV bus that is a number after the call has
  the real part it had before it.
\<close>

theorem sbus_frame:
  assumes "gausspf Ybus Sbus V0 ref pv pq tol max_it verbose = Inr r"
  shows "length (Sbus_after r) = length Sbus
       \<and> (\<forall>k. k \<notin> set pv \<longrightarrow> Sbus_after r ! k = Sbus ! k)
       \<and> (\<forall>k. k < length Sbus \<and> Sbus_after r ! k \<noteq> None
                \<longrightarrow> c_real (Sbus_after r ! k) = c_real (Sbus ! k))"
proof -
  from assms obtain normF c i st' out0 out' where
    run: "while_loop Ybus (map c_abs V0) pv pq tol max_it verbose (r_lt normF tol) 0
       \<lparr>V0_arr = V0, Sbus_arr = Sbus, V_arr = V0\<rparr> out0 = Inr (c, i, st', out')"
    and r: "Sbus_after r = Sbus_arr st'"
    by (rule gausspf_Inr)
  let ?P = "\<lambda>s::arrays. length (Sbus_arr s) = length Sbus
       \<and> (\<forall>k. k \<notin> set pv \<longrightarrow> Sbus_arr s ! k = Sbus ! k)
       \<and> (\<forall>k x. k < length Sbus \<and> Sbus_arr s ! k = Some x
                \<longrightarrow> (\<exists>y. Sbus ! k = Some y \<and> Re y = Re x))"
  have "?P st' \<and> 0 \<le> i
        \<and> (i = 0 \<longrightarrow> st' = \<lparr>V0_arr = V0, Sbus_arr = Sbus, V_arr = V0\<rparr> \<and> c = r_lt normF tol)
        \<and> (0 < i \<longrightarrow> True)"
  proof (rule while_loop_invariant [OF run, where P = ?P and Q = "\<lambda>s. True"])
    show "?P \<lparr>V0_arr = V0, Sbus_arr = Sbus, V_arr = V0\<rparr>" by simp
  next
    fix s assume P: "?P s"
    show "?P (sweep Ybus (map c_abs V0) pv pq s)"
    proof (intro conjI allI impI)
      from P show "length (Sbus_arr (sweep Ybus (map c_abs V0) pv pq s)) = length Sbus" by simp
    next
      fix k assume "k \<notin> set pv"
      with P show "Sbus_arr (sweep Ybus (map c_abs V0) pv pq s) ! k = Sbus ! k"
        by (simp add: sweep_Sbus_other)
    next
      fix k x
      assume kx: "k < length Sbus \<and> Sbus_arr (sweep Ybus (map c_abs V0) pv pq s) ! k = Some x"
      with P have "k < length (Sbus_arr s)" by simp
      from sweep_real [OF this] kx obtain y where "Sbus_arr s ! k = Some y" "Re y = Re x"
        by blast
      with P kx show "\<exists>y. Sbus ! k = Some y \<and> Re y = Re x" by fastforce
    qed
  qed simp
  then have P: "?P st'" by blast
  show ?thesis
  proof (intro conjI allI impI)
    from P r show "length (Sbus_after r) = length Sbus" by simp
  next
    fix k assume "k \<notin> set pv"
    with P r show "Sbus_after r ! k = Sbus ! k" by simp
  next
    fix k assume k: "k < length Sbus \<and> Sbus_after r ! k \<noteq> None"
    then obtain x where x: "Sbus_arr st' ! k = Some x" using r by auto
    with P k obtain y where "Sbus ! k = Some y" "Re y = Re x" by blast
    with x r show "c_real (Sbus_after r ! k) = c_real (Sbus ! k)" by (simp add: c_real_def)
  qed
qed

theorem sbus_frame_witness:
  "gausspf [[Some 1, Some (- 1)], [Some (- 1), Some 1]] [Some 0, Some 1] [Some 1, Some 1]
        [0] [1] [] (1 / 1000) 2 0
      = Inr \<lparr>ret_V = [Some 1, Some 1], ret_converged = False, ret_i = 2,
             Sbus_after = [Some 0, Some 1], V0_after = [Some 1, Some 1], stdout = []\<rparr>
   \<and> (0::nat) \<notin> set [1] \<and> (1::nat) < length [Some 0, Some (1::complex)]
   \<and> [Some 0, Some (1::complex)] ! 1 \<noteq> None
   \<and> c_real ([Some 0, Some 1] ! 1) = Some 1"
proof -
  have g: "gausspf [[Some 1, Some (- 1)], [Some (- 1), Some 1]] [Some 0, Some 1] [Some 1, Some 1]
        [0] [1] [] (1 / 1000) 2 0
      = Inr \<lparr>ret_V = [Some 1, Some 1], ret_converged = False, ret_i = 2,
             Sbus_after = [Some 0, Some 1], V0_after = [Some 1, Some 1], stdout = []\<rparr>"
    by (simp add: all_defs while_loop.simps)
  from sbus_frame [OF g] g show ?thesis by (simp add: c_real_def)
qed

text \<open>
  C9 as stated, for every input, fails at the real part. In the run below the first
  sweep leaves nan in \<open>V[1]\<close> (0 divided by 0), and the second sweep assigns
  \<open>-1 + 1j * nan\<close>, that is nan in both parts, to \<open>Sbus[1]\<close>: its real part was
  \<open>-1\<close>.
\<close>

theorem sbus_real_part_counterexample:
  "gausspf [[Some 1, Some (- 1)], [Some (- 1), Some 1]] [Some 0, Some (- 1)] [Some 1, Some 1]
        [0] [1] [] (1 / 1000) 2 0
      = Inr \<lparr>ret_V = [Some 1, None], ret_converged = False, ret_i = 2,
             Sbus_after = [Some 0, None], V0_after = [Some 1, Some 1], stdout = []\<rparr>
   \<and> c_real ([Some 0, None] ! 1) \<noteq> c_real ([Some 0, Some (- 1)] ! 1)"
  by (simp add: all_defs while_loop.simps)

text \<open>
  C10. When the cap is zero or negative and the first mismatch is not below the
  tolerance, the solver runs no sweep and raises nothing: it returns \<open>V0\<close>, the flag
  unset and the count 0, and \<open>Sbus\<close> is untouched.
\<close>

theorem nonpositive_cap_returns_at_once:
  assumes "shapes_ok Ybus Sbus V0" and "list_all (\<lambda>k. k < length V0) (pv @ pq)"
    and "norm_inf (F_init (mismatch Ybus Sbus V0) pv pq) = Inr normF"
    and "\<not> r_lt normF tol" and "max_it \<le> 0"
  shows "gausspf Ybus Sbus V0 ref pv pq tol max_it verbose
         = Inr \<lparr>ret_V = V0, ret_converged = False, ret_i = 0,
                Sbus_after = Sbus, V0_after = V0,
                stdout = (if verbose > 0 then [Banner] else [])
                       @ (if verbose > 1 then [TableHead, IterLine 0 normF] else [])
                       @ (if verbose \<noteq> 0 then [NotConverged 0] else [])\<rparr>"
  using assms by (simp add: gausspf_no_sweep [where normF = normF])


theorem nonpositive_cap_returns_at_once_witness:
  "shapes_ok [[Some 1, Some (- 1)], [Some (- 1), Some 1]] [Some 0, Some 1] [Some 1, Some 1]
   \<and> list_all (\<lambda>k. k < length [Some 1, Some (1::complex)]) ([] @ [1])
   \<and> norm_inf (F_init (mismatch [[Some 1, Some (- 1)], [Some (- 1), Some 1]]
                                 [Some 0, Some 1] [Some 1, Some 1]) [] [1]) = Inr (Some 1)
   \<and> \<not> r_lt (Some 1) (1 / 2) \<and> (- 3 :: int) \<le> 0
   \<and> gausspf [[Some 1, Some (- 1)], [Some (- 1), Some 1]] [Some 0, Some 1] [Some 1, Some 1]
        [0] [] [1] (1 / 2) (- 3) 1
      = Inr \<lparr>ret_V = [Some 1, Some 1], ret_converged = False, ret_i = 0,
             Sbus_after = [Some 0, Some 1], V0_after = [Some 1, Some 1],
             stdout = [Banner, NotConverged 0]\<rparr>"
proof -
  have h1: "shapes_ok [[Some 1, Some (- 1)], [Some (- 1), Some 1]] [Some 0, Some 1] [Some 1, Some 1]"
    and h2: "list_all (\<lambda>k. k < length [Some 1, Some (1::complex)]) ([] @ [1])"
    and h3: "norm_inf (F_init (mismatch [[Some 1, Some (- 1)], [Some (- 1), Some 1]]
                                 [Some 0, Some 1] [Some 1, Some 1]) [] [1]) = Inr (Some 1)"
    and h4: "\<not> r_lt (Some 1) (1 / 2)" and h5: "(- 3 :: int) \<le> 0"
    by (simp_all add: num_defs vec_defs)
  from nonpositive_cap_returns_at_once [OF h1 h2 h3 h4 h5, of "[0]" 1] h1 h2 h3 h4 h5
  show ?thesis by simp
qed

end
